theory Spec2Isabelle
  imports Main
begin

section \<open>Python values, dictionaries and exceptions\<close>

text \<open>
  The service (\<^verbatim>\<open>src/main.py\<close>) keeps every document as a Python \<^verbatim>\<open>dict\<close>. The rows come
  from \<^verbatim>\<open>csv.DictReader\<close>, whose values are strings, \<^verbatim>\<open>None\<close> (a row shorter than the
  header) or a list of strings (the surplus fields of a row longer than the header, stored
  under the key \<^verbatim>\<open>None\<close>); \<^verbatim>\<open>model_dump\<close> of a pydantic \<^verbatim>\<open>Document\<close> adds integers.
\<close>

datatype pyval = PNone | PInt int | PStr string | PList "string list"

text \<open>A \<^verbatim>\<open>dict\<close> in insertion order. A lookup takes the first pair with the key.\<close>

type_synonym pydict = "(pyval \<times> pyval) list"

datatype error =
    KeyError
  | TypeError
  | ValueError
  | ValidationError
  | HTTPException nat

text \<open>Lists are not hashable: using one as a dictionary key raises \<^verbatim>\<open>TypeError\<close>.\<close>

fun hashable :: "pyval \<Rightarrow> bool" where
  "hashable (PList _) = False"
| "hashable _ = True"

text \<open>\<^verbatim>\<open>d[k] = v\<close>: an existing key keeps its position, a new key goes last.\<close>

fun setitem :: "'k \<Rightarrow> 'v \<Rightarrow> ('k \<times> 'v) list \<Rightarrow> ('k \<times> 'v) list" where
  "setitem k v [] = [(k, v)]"
| "setitem k v (kv # d) = (if fst kv = k then (k, v) # d else kv # setitem k v d)"

text \<open>
  \<^verbatim>\<open>a == b\<close> on two dicts: the same keys with equal values, whatever the order. The values
  here are \<^verbatim>\<open>None\<close>, integers, strings and lists of strings, on which \<^verbatim>\<open>==\<close> is equality of
  \<^typ>\<open>pyval\<close>.
\<close>

definition dict_eq :: "pydict \<Rightarrow> pydict \<Rightarrow> bool" where
  "dict_eq a b = list_all (\<lambda>k. map_of a k = map_of b k) (map fst a @ map fst b)"

text \<open>
  \<^verbatim>\<open>xs.remove(x)\<close>: deletes the first item equal (\<^verbatim>\<open>==\<close>) to \<^verbatim>\<open>x\<close>; \<^verbatim>\<open>ValueError\<close>,
  here \<open>None\<close>, when there is none.
\<close>

fun list_remove :: "pydict \<Rightarrow> pydict list \<Rightarrow> pydict list option" where
  "list_remove x [] = None"
| "list_remove x (y # ys) =
     (if dict_eq y x then Some ys else map_option ((#) y) (list_remove x ys))"

text \<open>
  A \<^verbatim>\<open>defaultdict(list)\<close>. \<open>bucket d k\<close> is what \<^verbatim>\<open>d[k]\<close> evaluates to, and \<open>touch d k\<close> is
  the dictionary after that evaluation: reading a missing key stores an empty list under it.
\<close>

type_synonym index = "(pyval \<times> pydict list) list"

definition bucket :: "index \<Rightarrow> pyval \<Rightarrow> pydict list" where
  "bucket d k = (case map_of d k of None \<Rightarrow> [] | Some docs \<Rightarrow> docs)"

definition touch :: "index \<Rightarrow> pyval \<Rightarrow> index" where
  "touch d k = (case map_of d k of None \<Rightarrow> d @ [(k, [])] | Some _ \<Rightarrow> d)"

text \<open>\<^verbatim>\<open>d[k].append(doc)\<close> on a \<^verbatim>\<open>defaultdict(list)\<close>.\<close>

definition append_to :: "index \<Rightarrow> pyval \<Rightarrow> pydict \<Rightarrow> index" where
  "append_to d k doc = setitem k (bucket d k @ [doc]) (touch d k)"

section \<open>The pydantic classes\<close>

datatype DocumentStatus = SUCCEEDED | NEEDS_REVIEW

fun status_str :: "DocumentStatus \<Rightarrow> string" where
  "status_str SUCCEEDED = ''SUCCEEDED''"
| "status_str NEEDS_REVIEW = ''NEEDS_REVIEW''"

text \<open>
  \<^verbatim>\<open>class Document\<close>. The field \<^verbatim>\<open>id\<close> is \<open>id'\<close> here. A validated document has a status;
  \<^verbatim>\<open>model_copy(update=...)\<close> does not validate and can store \<^verbatim>\<open>None\<close> there.
\<close>

record Document =
  id' :: int
  pdf_path :: string
  status :: "DocumentStatus option"

text \<open>
  \<^verbatim>\<open>class DocumentUpdate\<close>: the body of a PATCH request. pydantic records whether the field
  was sent: \<open>NoFields\<close> is the body \<^verbatim>\<open>{}\<close>, \<open>StatusField None\<close> the body
  \<^verbatim>\<open>{"status": null}\<close>, \<open>StatusField (Some st)\<close> a body that names a status.
\<close>

datatype DocumentUpdate = NoFields | StatusField "DocumentStatus option"

datatype response =
    DocumentsResponse "Document list"
  | GroupedDocumentsResponse "(string \<times> Document list) list"
  | DocumentResponse Document

text \<open>
  Validation of a dict against \<^verbatim>\<open>Document\<close> (\<open>None\<close> is pydantic's \<^verbatim>\<open>ValidationError\<close>).
  \<^verbatim>\<open>id: int\<close> takes an integer, or a string that pydantic parses as one; that parser is the
  parameter \<open>str_int\<close>. \<^verbatim>\<open>pdf_path: str\<close> takes a string only. \<^verbatim>\<open>status\<close> takes one of the
  two literals. Other keys of the dict are ignored.
\<close>

definition validate_id :: "(string \<Rightarrow> int option) \<Rightarrow> pydict \<Rightarrow> int option" where
  "validate_id str_int d =
     (case map_of d (PStr ''id'') of
        Some (PInt n) \<Rightarrow> Some n
      | Some (PStr s) \<Rightarrow> str_int s
      | _ \<Rightarrow> None)"

definition validate_pdf_path :: "pydict \<Rightarrow> string option" where
  "validate_pdf_path d =
     (case map_of d (PStr ''pdf_path'') of Some (PStr p) \<Rightarrow> Some p | _ \<Rightarrow> None)"

definition validate_status :: "pydict \<Rightarrow> DocumentStatus option" where
  "validate_status d =
     (case map_of d (PStr ''status'') of
        Some (PStr s) \<Rightarrow>
          (if s = ''SUCCEEDED'' then Some SUCCEEDED
           else if s = ''NEEDS_REVIEW'' then Some NEEDS_REVIEW
           else None)
      | _ \<Rightarrow> None)"

definition validate_Document :: "(string \<Rightarrow> int option) \<Rightarrow> pydict \<Rightarrow> Document option" where
  "validate_Document str_int d =
     (case (validate_id str_int d, validate_pdf_path d, validate_status d) of
        (Some n, Some p, Some st) \<Rightarrow> Some \<lparr>id' = n, pdf_path = p, status = Some st\<rparr>
      | _ \<Rightarrow> None)"

text \<open>
  The call of \<^verbatim>\<open>Document\<close> with \<^verbatim>\<open>**old_record\<close>: the keywords of a call are strings, so
  a dict with another key raises \<^verbatim>\<open>TypeError\<close> before pydantic sees it.
\<close>

fun is_str :: "pyval \<Rightarrow> bool" where
  "is_str (PStr _) = True"
| "is_str _ = False"

definition Document_kwargs :: "(string \<Rightarrow> int option) \<Rightarrow> pydict \<Rightarrow> error + Document" where
  "Document_kwargs str_int d =
     (if \<not> list_all (\<lambda>kv. is_str (fst kv)) d then Inl TypeError
      else case validate_Document str_int d of
             None \<Rightarrow> Inl ValidationError
           | Some doc \<Rightarrow> Inr doc)"

text \<open>\<^verbatim>\<open>document.model_dump(exclude_unset=True)\<close> and \<^verbatim>\<open>.model_copy(update=changes)\<close>.\<close>

fun model_copy :: "Document \<Rightarrow> DocumentUpdate \<Rightarrow> Document" where
  "model_copy doc NoFields = doc"
| "model_copy doc (StatusField st) = doc\<lparr>status := st\<rparr>"

definition model_dump :: "Document \<Rightarrow> pydict" where
  "model_dump doc =
     [(PStr ''id'', PInt (id' doc)),
      (PStr ''pdf_path'', PStr (pdf_path doc)),
      (PStr ''status'', (case status doc of None \<Rightarrow> PNone | Some st \<Rightarrow> PStr (status_str st)))]"

section \<open>Loading the documents and building the indexes\<close>

text \<open>
  A row as \<^verbatim>\<open>csv.DictReader\<close> yields it: one entry for each column of the header, with
  \<open>None\<close> where the row was too short, and the surplus fields of a row that was too long.
\<close>

record csv_row =
  cells :: "(string \<times> string option) list"
  restkey :: "string list option"

definition row_dict :: "csv_row \<Rightarrow> pydict" where
  "row_dict r =
     map (\<lambda>(k, v). (PStr k, (case v of None \<Rightarrow> PNone | Some s \<Rightarrow> PStr s))) (cells r)
     @ (case restkey r of None \<Rightarrow> [] | Some rest \<Rightarrow> [(PNone, PList rest)])"

text \<open>
  The module's globals. No dict is changed after it is created, and no list that two
  globals share is changed (the lists of \<^verbatim>\<open>duplicates\<close> are those of
  \<^verbatim>\<open>documents_by_pdf_path\<close>, which nothing touches after the load), so which object a
  reference points to cannot be observed: every index holds the dicts themselves. A value
  of \<^verbatim>\<open>documents_by_id\<close> is \<open>Some\<close> dict; \<open>None\<close> is Python's \<^verbatim>\<open>None\<close>, which the handler
  tests for.
\<close>

record state =
  documents :: "pydict list"
  documents_by_id :: "(pyval \<times> pydict option) list"
  documents_by_status :: index
  documents_by_pdf_path :: index
  duplicates :: index

text \<open>\<^verbatim>\<open>{doc['id']: doc for doc in documents}\<close>, from the dictionary built so far.\<close>

fun by_id_from ::
  "(pyval \<times> pydict option) list \<Rightarrow> pydict list \<Rightarrow> error + (pyval \<times> pydict option) list" where
  "by_id_from acc [] = Inr acc"
| "by_id_from acc (doc # docs) =
     (case map_of doc (PStr ''id'') of
        None \<Rightarrow> Inl KeyError
      | Some k \<Rightarrow>
          if hashable k then by_id_from (setitem k (Some doc) acc) docs else Inl TypeError)"

text \<open>\<^verbatim>\<open>for doc in documents: index[doc[field]].append(doc)\<close>.\<close>

fun group_from :: "string \<Rightarrow> index \<Rightarrow> pydict list \<Rightarrow> error + index" where
  "group_from field acc [] = Inr acc"
| "group_from field acc (doc # docs) =
     (case map_of doc (PStr field) of
        None \<Rightarrow> Inl KeyError
      | Some k \<Rightarrow>
          if hashable k then group_from field (append_to acc k doc) docs else Inl TypeError)"

text \<open>The statements of the module up to \<^verbatim>\<open>duplicates = ...\<close>, in their order.\<close>

definition build :: "pydict list \<Rightarrow> error + state" where
  "build docs =
     (case by_id_from [] docs of
        Inl e \<Rightarrow> Inl e
      | Inr by_id \<Rightarrow>
     (case group_from ''status'' [] docs of
        Inl e \<Rightarrow> Inl e
      | Inr by_status \<Rightarrow>
     (case group_from ''pdf_path'' [] docs of
        Inl e \<Rightarrow> Inl e
      | Inr by_path \<Rightarrow>
          Inr \<lparr>documents = docs,
               documents_by_id = by_id,
               documents_by_status = by_status,
               documents_by_pdf_path = by_path,
               duplicates = filter (\<lambda>(path, docs). length docs > 1) by_path\<rparr>)))"

definition load :: "csv_row list \<Rightarrow> error + state" where
  "load rows = build (map row_dict rows)"

text \<open>The header of the file has the three columns that the module subscripts.\<close>

definition has_columns :: "csv_row \<Rightarrow> bool" where
  "has_columns r = list_all (\<lambda>f. f \<in> set (map fst (cells r))) [''id'', ''status'', ''pdf_path'']"

section \<open>The request handlers\<close>

text \<open>
  \<^verbatim>\<open>get_documents\<close>: the path parameter is one of the two literals (FastAPI rejects any other
  with 422 before the handler runs). Building the \<^verbatim>\<open>DocumentsResponse\<close> validates every dict
  of the list against \<^verbatim>\<open>Document\<close>.
\<close>

fun validate_list :: "(string \<Rightarrow> int option) \<Rightarrow> pydict list \<Rightarrow> Document list option" where
  "validate_list str_int [] = Some []"
| "validate_list str_int (d # ds) =
     (case validate_Document str_int d of
        None \<Rightarrow> None
      | Some doc \<Rightarrow> map_option ((#) doc) (validate_list str_int ds))"

definition get_documents ::
  "(string \<Rightarrow> int option) \<Rightarrow> DocumentStatus \<Rightarrow> state \<Rightarrow> (error + response) \<times> state" where
  "get_documents str_int st s =
     (let k = PStr (status_str st);
          docs = bucket (documents_by_status s) k;
          s' = s\<lparr>documents_by_status := touch (documents_by_status s) k\<rparr>
      in case validate_list str_int docs of
           None \<Rightarrow> (Inl ValidationError, s')
         | Some ds \<Rightarrow> (Inr (DocumentsResponse ds), s'))"

text \<open>
  \<^verbatim>\<open>get_duplicate_documents\<close>: the response is a \<^verbatim>\<open>dict[str, list[Document]]\<close>, so every key
  has to be a string and every dict has to validate.
\<close>

fun validate_groups ::
  "(string \<Rightarrow> int option) \<Rightarrow> index \<Rightarrow> (string \<times> Document list) list option" where
  "validate_groups str_int [] = Some []"
| "validate_groups str_int ((k, docs) # g) =
     (case k of
        PStr path \<Rightarrow>
          (case validate_list str_int docs of
             None \<Rightarrow> None
           | Some ds \<Rightarrow> map_option ((#) (path, ds)) (validate_groups str_int g))
      | _ \<Rightarrow> None)"

definition get_duplicate_documents ::
  "(string \<Rightarrow> int option) \<Rightarrow> state \<Rightarrow> (error + response) \<times> state" where
  "get_duplicate_documents str_int s =
     (case validate_groups str_int (duplicates s) of
        None \<Rightarrow> (Inl ValidationError, s)
      | Some g \<Rightarrow> (Inr (GroupedDocumentsResponse g), s))"

text \<open>
  \<^verbatim>\<open>update_document\<close>, statement by statement. The subscript \<^verbatim>\<open>documents_by_id[id]\<close> is on a
  plain \<^verbatim>\<open>dict\<close> and raises \<^verbatim>\<open>KeyError\<close> for a missing key; the key is the integer of the
  path. The state returned with an error is the state at the moment of the raise.
\<close>

definition update_document ::
  "(string \<Rightarrow> int option) \<Rightarrow> int \<Rightarrow> DocumentUpdate \<Rightarrow> state \<Rightarrow> (error + response) \<times> state" where
  "update_document str_int i document s =
     (case map_of (documents_by_id s) (PInt i) of
        None \<Rightarrow> (Inl KeyError, s)
      | Some None \<Rightarrow> (Inl (HTTPException 404), s)
      | Some (Some old_record) \<Rightarrow>
     (case Document_kwargs str_int old_record of
        Inl e \<Rightarrow> (Inl e, s)
      | Inr doc \<Rightarrow>
          let updated_document = model_copy doc document;
              new_record = model_dump updated_document
          in
     (case map_of old_record (PStr ''status'') of
        None \<Rightarrow> (Inl KeyError, s)
      | Some old_status \<Rightarrow>
          if \<not> hashable old_status then (Inl TypeError, s)
          else
            let s1 = s\<lparr>documents_by_status := touch (documents_by_status s) old_status\<rparr>
            in
     (case list_remove old_record (bucket (documents_by_status s1) old_status) of
        None \<Rightarrow> (Inl ValueError, s1)
      | Some rest \<Rightarrow>
          let s2 = s1\<lparr>documents_by_status := setitem old_status rest (documents_by_status s1)\<rparr>;
              new_status = (case status updated_document of
                              None \<Rightarrow> PNone | Some st \<Rightarrow> PStr (status_str st));
              s3 = s2\<lparr>documents_by_status := append_to (documents_by_status s2) new_status new_record\<rparr>;
              s4 = s3\<lparr>documents_by_id :=
                        setitem (PInt (id' updated_document)) (Some new_record) (documents_by_id s3)\<rparr>
          in (Inr (DocumentResponse updated_document), s4)))))"

text \<open>
  The service: requests are handled one after the other. An exception that a handler does
  not catch becomes a 500 response of the framework and the process goes on with the
  globals as they are.
\<close>

datatype request =
    GetDocuments DocumentStatus
  | GetDuplicateDocuments
  | UpdateDocument int DocumentUpdate

fun handle :: "(string \<Rightarrow> int option) \<Rightarrow> request \<Rightarrow> state \<Rightarrow> (error + response) \<times> state" where
  "handle str_int (GetDocuments st) s = get_documents str_int st s"
| "handle str_int GetDuplicateDocuments s = get_duplicate_documents str_int s"
| "handle str_int (UpdateDocument i document) s = update_document str_int i document s"

fun serve ::
  "(string \<Rightarrow> int option) \<Rightarrow> request list \<Rightarrow> state \<Rightarrow> (error + response) list \<times> state" where
  "serve str_int [] s = ([], s)"
| "serve str_int (r # rs) s =
     (let (out, s') = handle str_int r s;
          (outs, s'') = serve str_int rs s'
      in (out # outs, s''))"

section \<open>Concrete data\<close>

text \<open>A parser of plain decimal numerals, for the evaluations below.\<close>

fun position :: "char \<Rightarrow> string \<Rightarrow> nat option" where
  "position c [] = None"
| "position c (x # xs) = (if c = x then Some 0 else map_option Suc (position c xs))"

definition digit :: "char \<Rightarrow> nat option" where
  "digit c = position c ''0123456789''"

fun digits :: "nat \<Rightarrow> string \<Rightarrow> nat option" where
  "digits acc [] = Some acc"
| "digits acc (c # cs) =
     (case digit c of None \<Rightarrow> None | Some d \<Rightarrow> digits (10 * acc + d) cs)"

definition decimal :: "string \<Rightarrow> int option" where
  "decimal s = (if s = [] then None else map_option int (digits 0 s))"

text \<open>The three documents of the specification's scenario, columns id, pdf_path, status.\<close>

definition row :: "string \<Rightarrow> string \<Rightarrow> string \<Rightarrow> csv_row" where
  "row i p st =
     \<lparr>cells = [(''id'', Some i), (''pdf_path'', Some p), (''status'', Some st)],
      restkey = None\<rparr>"

definition scenario :: "csv_row list" where
  "scenario =
     [row ''1'' ''a.pdf'' ''NEEDS_REVIEW'',
      row ''2'' ''a.pdf'' ''SUCCEEDED'',
      row ''3'' ''b.pdf'' ''SUCCEEDED'']"

definition doc1 :: pydict where
  "doc1 = [(PStr ''id'', PStr ''1''), (PStr ''pdf_path'', PStr ''a.pdf''),
           (PStr ''status'', PStr ''NEEDS_REVIEW'')]"

definition doc2 :: pydict where
  "doc2 = [(PStr ''id'', PStr ''2''), (PStr ''pdf_path'', PStr ''a.pdf''),
           (PStr ''status'', PStr ''SUCCEEDED'')]"

definition doc3 :: pydict where
  "doc3 = [(PStr ''id'', PStr ''3''), (PStr ''pdf_path'', PStr ''b.pdf''),
           (PStr ''status'', PStr ''SUCCEEDED'')]"

definition loaded :: state where
  "loaded =
     \<lparr>documents = [doc1, doc2, doc3],
      documents_by_id = [(PStr ''1'', Some doc1), (PStr ''2'', Some doc2), (PStr ''3'', Some doc3)],
      documents_by_status = [(PStr ''NEEDS_REVIEW'', [doc1]), (PStr ''SUCCEEDED'', [doc2, doc3])],
      documents_by_pdf_path = [(PStr ''a.pdf'', [doc1, doc2]), (PStr ''b.pdf'', [doc3])],
      duplicates = [(PStr ''a.pdf'', [doc1, doc2])]\<rparr>"

definition document1 :: Document where
  "document1 = \<lparr>id' = 1, pdf_path = ''a.pdf'', status = Some NEEDS_REVIEW\<rparr>"

definition document2 :: Document where
  "document2 = \<lparr>id' = 2, pdf_path = ''a.pdf'', status = Some SUCCEEDED\<rparr>"

definition document3 :: Document where
  "document3 = \<lparr>id' = 3, pdf_path = ''b.pdf'', status = Some SUCCEEDED\<rparr>"

text \<open>The store of a file with the first of these rows only: nothing has status SUCCEEDED.\<close>

definition review_only :: state where
  "review_only =
     \<lparr>documents = [doc1],
      documents_by_id = [(PStr ''1'', Some doc1)],
      documents_by_status = [(PStr ''NEEDS_REVIEW'', [doc1])],
      documents_by_pdf_path = [(PStr ''a.pdf'', [doc1])],
      duplicates = []\<rparr>"

text \<open>
  A file with the same header and four rows: two rows with id 1, a row whose id is not a
  number, and the row \<^verbatim>\<open>4\<close>, which is shorter than the header.
\<close>

definition short_row :: csv_row where
  "short_row =
     \<lparr>cells = [(''id'', Some ''4''), (''pdf_path'', None), (''status'', None)], restkey = None\<rparr>"

definition malformed :: "csv_row list" where
  "malformed =
     [row ''1'' ''a.pdf'' ''SUCCEEDED'',
      row ''1'' ''b.pdf'' ''NEEDS_REVIEW'',
      row ''abc'' ''c.pdf'' ''SUCCEEDED'',
      short_row]"

definition dup_a :: pydict where
  "dup_a = [(PStr ''id'', PStr ''1''), (PStr ''pdf_path'', PStr ''a.pdf''),
            (PStr ''status'', PStr ''SUCCEEDED'')]"

definition dup_b :: pydict where
  "dup_b = [(PStr ''id'', PStr ''1''), (PStr ''pdf_path'', PStr ''b.pdf''),
            (PStr ''status'', PStr ''NEEDS_REVIEW'')]"

definition bad_id :: pydict where
  "bad_id = [(PStr ''id'', PStr ''abc''), (PStr ''pdf_path'', PStr ''c.pdf''),
             (PStr ''status'', PStr ''SUCCEEDED'')]"

definition short_doc :: pydict where
  "short_doc = [(PStr ''id'', PStr ''4''), (PStr ''pdf_path'', PNone), (PStr ''status'', PNone)]"

definition malformed_loaded :: state where
  "malformed_loaded =
     \<lparr>documents = [dup_a, dup_b, bad_id, short_doc],
      documents_by_id =
        [(PStr ''1'', Some dup_b), (PStr ''abc'', Some bad_id), (PStr ''4'', Some short_doc)],
      documents_by_status =
        [(PStr ''SUCCEEDED'', [dup_a, bad_id]), (PStr ''NEEDS_REVIEW'', [dup_b]),
         (PNone, [short_doc])],
      documents_by_pdf_path =
        [(PStr ''a.pdf'', [dup_a]), (PStr ''b.pdf'', [dup_b]), (PStr ''c.pdf'', [bad_id]),
         (PNone, [short_doc])],
      duplicates = []\<rparr>"

text \<open>A file whose header has no status column.\<close>

definition no_status :: "csv_row list" where
  "no_status = [\<lparr>cells = [(''id'', Some ''1''), (''pdf_path'', Some ''a.pdf'')], restkey = None\<rparr>]"

text \<open>
  A store that the module never builds: the scenario's documents under integer keys. It
  shows what the statements of \<^verbatim>\<open>update_document\<close> after the lookup do.
\<close>

definition loaded_int :: state where
  "loaded_int =
     loaded\<lparr>documents_by_id := [(PInt 1, Some doc1), (PInt 2, Some doc2), (PInt 3, Some doc3)]\<rparr>"

definition new1 :: pydict where
  "new1 = [(PStr ''id'', PInt 1), (PStr ''pdf_path'', PStr ''a.pdf''),
           (PStr ''status'', PStr ''SUCCEEDED'')]"

definition new2 :: pydict where
  "new2 = [(PStr ''id'', PInt 2), (PStr ''pdf_path'', PStr ''a.pdf''),
           (PStr ''status'', PStr ''SUCCEEDED'')]"

section \<open>Predicates of the proofs\<close>

text \<open>Under a string key, a dict of a CSV row holds a string or \<^verbatim>\<open>None\<close>.\<close>

definition csv_doc :: "pydict \<Rightarrow> bool" where
  "csv_doc d = (\<forall>f v. map_of d (PStr f) = Some v \<longrightarrow> v = PNone \<or> is_str v)"

definition no_int_key :: "(pyval \<times> 'v) list \<Rightarrow> bool" where
  "no_int_key d = (\<forall>k\<in>fst ` set d. \<forall>i. k \<noteq> PInt i)"

text \<open>
  Two stores that no request tells apart: they agree on everything but the keys of
  \<^verbatim>\<open>documents_by_status\<close> that hold an empty list.
\<close>

definition sim :: "state \<Rightarrow> state \<Rightarrow> bool" where
  "sim s t =
     (documents s = documents t \<and> documents_by_id s = documents_by_id t \<and>
      (\<forall>k. bucket (documents_by_status s) k = bucket (documents_by_status t) k) \<and>
      documents_by_pdf_path s = documents_by_pdf_path t \<and> duplicates s = duplicates t)"

section \<open>Dictionaries and lists\<close>

lemma map_of_setitem: "map_of (setitem k v d) = (map_of d)(k \<mapsto> v)"
  by (induction d) (auto simp: fun_eq_iff)

lemma keys_setitem: "fst ` set (setitem k v d) = insert k (fst ` set d)"
  by (induction d) auto

lemma bucket_setitem: "bucket (setitem k v d) k' = (if k' = k then v else bucket d k')"
  by (simp add: bucket_def map_of_setitem)

lemma map_of_touch:
  "map_of (touch d k) k' = (if k' = k \<and> map_of d k = None then Some [] else map_of d k')"
  by (auto simp: touch_def map_add_def split: option.splits)

lemma bucket_touch: "bucket (touch d k) k' = bucket d k'"
  by (auto simp: bucket_def map_of_touch split: option.splits)

lemma bucket_append_to:
  "bucket (append_to d k doc) k' = (if k' = k then bucket d k @ [doc] else bucket d k')"
  by (simp add: append_to_def bucket_setitem bucket_touch)

lemma keys_touch: "fst ` set (touch d k) = insert k (fst ` set d)"
proof (cases "map_of d k")
  case None
  then show ?thesis by (simp add: touch_def)
next
  case (Some docs)
  then have "k \<in> fst ` set d" by (metis map_of_eq_None_iff option.distinct(1))
  with Some show ?thesis by (auto simp: touch_def)
qed

lemma distinct_setitem: "distinct (map fst d) \<Longrightarrow> distinct (map fst (setitem k v d))"
  by (induction d) (auto simp: keys_setitem)

lemma distinct_touch: "distinct (map fst d) \<Longrightarrow> distinct (map fst (touch d k))"
  by (auto simp: touch_def map_of_eq_None_iff split: option.splits)

lemma distinct_append_to: "distinct (map fst d) \<Longrightarrow> distinct (map fst (append_to d k doc))"
  by (simp add: append_to_def distinct_setitem distinct_touch)

lemma dict_eq_iff: "dict_eq a b \<longleftrightarrow> map_of a = map_of b"
proof
  assume h: "dict_eq a b"
  show "map_of a = map_of b"
  proof
    fix k
    show "map_of a k = map_of b k"
    proof (cases "k \<in> fst ` set a \<union> fst ` set b")
      case True
      with h show ?thesis by (auto simp: dict_eq_def list_all_iff)
    next
      case False
      then have "map_of a k = None" and "map_of b k = None"
        by (simp_all add: map_of_eq_None_iff)
      then show ?thesis by simp
    qed
  qed
next
  assume "map_of a = map_of b"
  then show "dict_eq a b" by (simp add: dict_eq_def list_all_iff)
qed

lemma map_of_row_dict:
  "map_of (row_dict r) (PStr f) =
     map_option (\<lambda>v. case v of None \<Rightarrow> PNone | Some s \<Rightarrow> PStr s) (map_of (cells r) f)"
proof -
  have "map_of (map (\<lambda>(k, v). (PStr k, (case v of None \<Rightarrow> PNone | Some s \<Rightarrow> PStr s))) xs) (PStr f) =
        map_option (\<lambda>v. case v of None \<Rightarrow> PNone | Some s \<Rightarrow> PStr s) (map_of xs f)" for xs
    by (induction xs) auto
  then show ?thesis
    by (auto simp: row_dict_def map_add_def split: option.splits)
qed

lemma csv_doc_row_dict: "csv_doc (row_dict r)"
  by (auto simp: csv_doc_def map_of_row_dict split: option.splits)

lemma csv_doc_hashable: "csv_doc d \<Longrightarrow> map_of d (PStr f) = Some v \<Longrightarrow> hashable v"
proof -
  assume "csv_doc d" and "map_of d (PStr f) = Some v"
  then have "v = PNone \<or> is_str v" unfolding csv_doc_def by blast
  then show ?thesis by (cases v) simp_all
qed

lemma by_id_from_result:
  assumes "\<forall>doc\<in>set docs. csv_doc doc"
  shows "if (\<forall>doc\<in>set docs. map_of doc (PStr ''id'') \<noteq> None)
         then (\<exists>d. by_id_from acc docs = Inr d) else by_id_from acc docs = Inl KeyError"
  using assms
proof (induction docs arbitrary: acc)
  case Nil
  then show ?case by simp
next
  case (Cons doc docs)
  show ?case
  proof (cases "map_of doc (PStr ''id'')")
    case None
    then show ?thesis by simp
  next
    case (Some k)
    with Cons.prems have "hashable k" by (auto dest: csv_doc_hashable)
    with Some Cons.IH[of "setitem k (Some doc) acc"] Cons.prems show ?thesis by simp
  qed
qed

lemma group_from_result:
  assumes "\<forall>doc\<in>set docs. csv_doc doc"
  shows "if (\<forall>doc\<in>set docs. map_of doc (PStr field) \<noteq> None)
         then (\<exists>d. group_from field acc docs = Inr d) else group_from field acc docs = Inl KeyError"
  using assms
proof (induction docs arbitrary: acc)
  case Nil
  then show ?case by simp
next
  case (Cons doc docs)
  show ?case
  proof (cases "map_of doc (PStr field)")
    case None
    then show ?thesis by simp
  next
    case (Some k)
    with Cons.prems have "hashable k" by (auto dest: csv_doc_hashable)
    with Some Cons.IH[of "append_to acc k doc"] Cons.prems show ?thesis by simp
  qed
qed

lemma find_app:
  "find P (xs @ ys) = (case find P xs of None \<Rightarrow> find P ys | Some x \<Rightarrow> Some x)"
  by (induction xs) auto

lemma by_id_from_lookup:
  "by_id_from acc docs = Inr d \<Longrightarrow>
   map_of d k = (case find (\<lambda>doc. map_of doc (PStr ''id'') = Some k) (rev docs) of
                   None \<Rightarrow> map_of acc k | Some doc \<Rightarrow> Some (Some doc))"
proof (induction docs arbitrary: acc)
  case Nil
  then show ?case by simp
next
  case (Cons doc docs)
  from Cons.prems obtain k' where k': "map_of doc (PStr ''id'') = Some k'"
    and rest: "by_id_from (setitem k' (Some doc) acc) docs = Inr d"
    by (auto split: option.splits if_splits)
  show ?case
    using Cons.IH[OF rest] k'
    by (auto simp: find_app map_of_setitem split: option.splits)
qed

lemma by_id_from_keys:
  "by_id_from acc docs = Inr d \<Longrightarrow> k \<in> fst ` set d \<Longrightarrow>
   k \<in> fst ` set acc \<or> (\<exists>doc\<in>set docs. map_of doc (PStr ''id'') = Some k)"
proof (induction docs arbitrary: acc)
  case Nil
  then show ?case by simp
next
  case (Cons doc docs)
  from Cons.prems obtain k' where k': "map_of doc (PStr ''id'') = Some k'"
    and rest: "by_id_from (setitem k' (Some doc) acc) docs = Inr d"
    by (auto split: option.splits if_splits)
  from Cons.IH[OF rest Cons.prems(2)] k' show ?case
    by (auto simp: keys_setitem)
qed

lemma group_from_bucket:
  "group_from field acc docs = Inr d \<Longrightarrow>
   bucket d k = bucket acc k @ filter (\<lambda>doc. map_of doc (PStr field) = Some k) docs"
proof (induction docs arbitrary: acc)
  case Nil
  then show ?case by simp
next
  case (Cons doc docs)
  from Cons.prems obtain k' where k': "map_of doc (PStr field) = Some k'"
    and rest: "group_from field (append_to acc k' doc) docs = Inr d"
    by (auto split: option.splits if_splits)
  show ?case
    using Cons.IH[OF rest] k' by (auto simp: bucket_append_to)
qed

lemma group_from_distinct:
  "group_from field acc docs = Inr d \<Longrightarrow> distinct (map fst acc) \<Longrightarrow> distinct (map fst d)"
proof (induction docs arbitrary: acc)
  case Nil
  then show ?case by simp
next
  case (Cons doc docs)
  from Cons.prems obtain k' where k': "map_of doc (PStr field) = Some k'"
    and rest: "group_from field (append_to acc k' doc) docs = Inr d"
    by (auto split: option.splits if_splits)
  show ?case
    using Cons.IH[OF rest] Cons.prems(2) by (simp add: distinct_append_to)
qed

lemma no_int_key_lookup: "no_int_key d \<Longrightarrow> map_of d (PInt i) = None"
  unfolding no_int_key_def by (metis map_of_eq_None_iff)

lemma update_document_KeyError:
  "map_of (documents_by_id s) (PInt i) = None \<Longrightarrow>
   update_document str_int i document s = (Inl KeyError, s)"
  by (simp add: update_document_def)

lemma get_documents_frame:
  "documents_by_id (snd (get_documents str_int st s)) = documents_by_id s"
  "documents_by_pdf_path (snd (get_documents str_int st s)) = documents_by_pdf_path s"
  "duplicates (snd (get_documents str_int st s)) = duplicates s"
  "documents (snd (get_documents str_int st s)) = documents s"
  "bucket (documents_by_status (snd (get_documents str_int st s))) k = bucket (documents_by_status s) k"
  by (simp_all add: get_documents_def Let_def bucket_touch split: option.splits)

lemma get_duplicate_documents_state: "snd (get_duplicate_documents str_int s) = s"
  by (simp add: get_duplicate_documents_def split: option.splits)

lemma update_document_frame:
  "documents_by_pdf_path (snd (update_document str_int i document s)) = documents_by_pdf_path s"
  "duplicates (snd (update_document str_int i document s)) = duplicates s"
  "documents (snd (update_document str_int i document s)) = documents s"
  by (simp_all add: update_document_def Let_def split: option.splits sum.splits)

lemma handle_frame:
  "documents_by_pdf_path (snd (handle str_int r s)) = documents_by_pdf_path s"
  "duplicates (snd (handle str_int r s)) = duplicates s"
  "documents (snd (handle str_int r s)) = documents s"
  by (cases r; simp add: get_documents_frame get_duplicate_documents_state update_document_frame)+

lemma handle_by_id:
  "no_int_key (documents_by_id s) \<Longrightarrow> documents_by_id (snd (handle str_int r s)) = documents_by_id s"
  by (cases r)
     (simp_all add: get_documents_frame get_duplicate_documents_state
        update_document_KeyError no_int_key_lookup)

lemma serve_Cons:
  "serve str_int (r # rs) s =
     (fst (handle str_int r s) # fst (serve str_int rs (snd (handle str_int r s))),
      snd (serve str_int rs (snd (handle str_int r s))))"
  by (simp add: split_beta)

lemma serve_frame:
  "documents_by_pdf_path (snd (serve str_int rs s)) = documents_by_pdf_path s \<and>
   duplicates (snd (serve str_int rs s)) = duplicates s \<and>
   documents (snd (serve str_int rs s)) = documents s"
proof (induction rs arbitrary: s)
  case Nil
  show ?case by simp
next
  case (Cons r rs)
  show ?case
    unfolding serve_Cons using Cons.IH[of "snd (handle str_int r s)"]
    by (simp add: handle_frame)
qed

lemma serve_by_id:
  "no_int_key (documents_by_id s) \<Longrightarrow> documents_by_id (snd (serve str_int rs s)) = documents_by_id s"
proof (induction rs arbitrary: s)
  case Nil
  show ?case by simp
next
  case (Cons r rs)
  have "no_int_key (documents_by_id (snd (handle str_int r s)))"
    using Cons.prems by (simp add: handle_by_id)
  from Cons.IH[OF this] Cons.prems show ?case
    unfolding serve_Cons by (simp add: handle_by_id)
qed

lemma sim_refl: "sim s s"
  by (simp add: sim_def)

lemma get_documents_sim:
  "sim s t \<Longrightarrow> fst (get_documents str_int st s) = fst (get_documents str_int st t) \<and>
     sim (snd (get_documents str_int st s)) (snd (get_documents str_int st t))"
  by (simp add: sim_def get_documents_def Let_def bucket_touch split: option.splits)

lemma update_document_sim:
  assumes "sim s t"
  shows "fst (update_document str_int i document s) = fst (update_document str_int i document t) \<and>
     sim (snd (update_document str_int i document s)) (snd (update_document str_int i document t))"
  using assms
  by (simp add: sim_def update_document_def Let_def bucket_touch bucket_setitem bucket_append_to
      split: option.splits sum.splits)

lemma handle_sim:
  "sim s t \<Longrightarrow> fst (handle str_int r s) = fst (handle str_int r t) \<and>
     sim (snd (handle str_int r s)) (snd (handle str_int r t))"
proof (cases r)
  case (GetDocuments st)
  assume "sim s t"
  with GetDocuments show ?thesis by (simp add: get_documents_sim)
next
  case GetDuplicateDocuments
  assume "sim s t"
  then have "duplicates s = duplicates t" by (simp add: sim_def)
  with \<open>sim s t\<close> GetDuplicateDocuments show ?thesis
    by (simp add: get_duplicate_documents_def split: option.splits)
next
  case (UpdateDocument i document)
  assume "sim s t"
  with UpdateDocument show ?thesis by (simp add: update_document_sim)
qed

lemma serve_sim:
  "sim s t \<Longrightarrow> fst (serve str_int rs s) = fst (serve str_int rs t) \<and>
     sim (snd (serve str_int rs s)) (snd (serve str_int rs t))"
proof (induction rs arbitrary: s t)
  case Nil
  then show ?case by simp
next
  case (Cons r rs)
  from handle_sim[OF Cons.prems, of str_int r]
  have out: "fst (handle str_int r s) = fst (handle str_int r t)"
    and st: "sim (snd (handle str_int r s)) (snd (handle str_int r t))" by simp_all
  from Cons.IH[OF st] out show ?case unfolding serve_Cons by simp
qed

lemma get_documents_sim_self: "sim (snd (get_documents str_int st s)) s"
  by (simp add: sim_def get_documents_frame)

lemma load_docs_csv: "\<forall>doc\<in>set (map row_dict rows). csv_doc doc"
  by (simp add: csv_doc_row_dict)

lemma load_no_int_key:
  assumes "load rows = Inr s"
  shows "no_int_key (documents_by_id s)"
proof -
  from assms obtain d where d: "by_id_from [] (map row_dict rows) = Inr d"
    and s: "documents_by_id s = d"
    by (auto simp: load_def build_def split: sum.splits)
  have "k \<noteq> PInt i" if "k \<in> fst ` set d" for k i
  proof -
    from by_id_from_keys[OF d that] obtain r where "map_of (row_dict r) (PStr ''id'') = Some k"
      by auto
    then show ?thesis by (auto simp: map_of_row_dict split: option.splits)
  qed
  with s show ?thesis by (auto simp: no_int_key_def)
qed

lemma map_of_filter_snd:
  "distinct (map fst d) \<Longrightarrow>
   map_of (filter (\<lambda>(k, v). P v) d) k =
     (case map_of d k of None \<Rightarrow> None | Some v \<Rightarrow> if P v then Some v else None)"
proof (induction d)
  case Nil
  show ?case by simp
next
  case (Cons kv d)
  obtain k' v' where kv: "kv = (k', v')" by (cases kv)
  from Cons.prems kv have "map_of d k' = None" by (simp add: map_of_eq_None_iff)
  moreover have "map_of (filter (\<lambda>(k, v). P v) d) k' = None"
    using Cons.prems kv by (auto simp: map_of_eq_None_iff)
  ultimately show ?case using Cons kv by (auto split: option.splits)
qed

lemma load_duplicates:
  assumes "load rows = Inr s"
  shows "distinct (map fst (documents_by_pdf_path s)) \<and>
         duplicates s = filter (\<lambda>(path, docs). length docs > 1) (documents_by_pdf_path s)"
proof -
  from assms obtain d where d: "group_from ''pdf_path'' [] (map row_dict rows) = Inr d"
    and s: "documents_by_pdf_path s = d" "duplicates s = filter (\<lambda>(path, docs). length docs > 1) d"
    by (auto simp: load_def build_def split: sum.splits)
  from group_from_distinct[OF d] s show ?thesis by simp
qed

lemma has_columns_iff:
  "has_columns r \<longleftrightarrow>
     map_of (row_dict r) (PStr ''id'') \<noteq> None \<and>
     map_of (row_dict r) (PStr ''status'') \<noteq> None \<and>
     map_of (row_dict r) (PStr ''pdf_path'') \<noteq> None"
  by (simp add: has_columns_def map_of_row_dict map_of_eq_None_iff)

lemma build_Inr:
  assumes "by_id_from [] docs = Inr a" and "group_from ''status'' [] docs = Inr b"
    and "group_from ''pdf_path'' [] docs = Inr c"
  shows "build docs =
           Inr \<lparr>documents = docs, documents_by_id = a, documents_by_status = b,
                documents_by_pdf_path = c,
                duplicates = filter (\<lambda>(path, docs). length docs > 1) c\<rparr>"
  using assms by (simp add: build_def)

lemma load_columns_present:
  assumes "list_all has_columns rows"
  shows "\<exists>s. load rows = Inr s \<and> documents s = map row_dict rows \<and>
           (\<forall>k. map_of (documents_by_id s) k =
                  map_option Some (find (\<lambda>doc. map_of doc (PStr ''id'') = Some k)
                                        (rev (map row_dict rows)))) \<and>
           (\<forall>k. bucket (documents_by_status s) k =
                  filter (\<lambda>doc. map_of doc (PStr ''status'') = Some k) (map row_dict rows)) \<and>
           (\<forall>k. bucket (documents_by_pdf_path s) k =
                  filter (\<lambda>doc. map_of doc (PStr ''pdf_path'') = Some k) (map row_dict rows))"
proof -
  let ?docs = "map row_dict rows"
  have csv: "\<forall>doc\<in>set ?docs. csv_doc doc" by (rule load_docs_csv)
  have cols: "\<forall>doc\<in>set ?docs. map_of doc (PStr ''id'') \<noteq> None"
    "\<forall>doc\<in>set ?docs. map_of doc (PStr ''status'') \<noteq> None"
    "\<forall>doc\<in>set ?docs. map_of doc (PStr ''pdf_path'') \<noteq> None"
    using assms by (auto simp: list_all_iff has_columns_iff)
  from by_id_from_result[OF csv, of "[]"] cols(1)
  obtain a where a: "by_id_from [] ?docs = Inr a" by auto
  from group_from_result[OF csv, of "''status''" "[]"] cols(2)
  obtain b where b: "group_from ''status'' [] ?docs = Inr b" by auto
  from group_from_result[OF csv, of "''pdf_path''" "[]"] cols(3)
  obtain c where c: "group_from ''pdf_path'' [] ?docs = Inr c" by auto
  have la: "map_of a k = map_option Some (find (\<lambda>doc. map_of doc (PStr ''id'') = Some k) (rev ?docs))" for k
    using by_id_from_lookup[OF a, of k] by (simp split: option.splits)
  have lb: "bucket b k = filter (\<lambda>doc. map_of doc (PStr ''status'') = Some k) ?docs" for k
    using group_from_bucket[OF b, of k] by (simp add: bucket_def)
  have lc: "bucket c k = filter (\<lambda>doc. map_of doc (PStr ''pdf_path'') = Some k) ?docs" for k
    using group_from_bucket[OF c, of k] by (simp add: bucket_def)
  show ?thesis
    unfolding load_def build_Inr[OF a b c] using la lb lc by simp
qed

lemma load_column_missing:
  assumes "\<not> list_all has_columns rows"
  shows "load rows = Inl KeyError"
proof -
  let ?docs = "map row_dict rows"
  have csv: "\<forall>doc\<in>set ?docs. csv_doc doc" by (rule load_docs_csv)
  note a = by_id_from_result[OF csv, of "[]"]
  note b = group_from_result[OF csv, of "''status''" "[]"]
  note c = group_from_result[OF csv, of "''pdf_path''" "[]"]
  from assms have
    "\<not> ((\<forall>doc\<in>set ?docs. map_of doc (PStr ''id'') \<noteq> None) \<and>
        (\<forall>doc\<in>set ?docs. map_of doc (PStr ''status'') \<noteq> None) \<and>
        (\<forall>doc\<in>set ?docs. map_of doc (PStr ''pdf_path'') \<noteq> None))"
    by (auto simp: list_all_iff has_columns_iff)
  then consider
      "by_id_from [] ?docs = Inl KeyError"
    | a' where "by_id_from [] ?docs = Inr a'" "group_from ''status'' [] ?docs = Inl KeyError"
    | a' b' where "by_id_from [] ?docs = Inr a'" "group_from ''status'' [] ?docs = Inr b'"
        "group_from ''pdf_path'' [] ?docs = Inl KeyError"
    using a b c by (metis (no_types, lifting))
  then show ?thesis
    by cases (simp_all add: load_def build_def)
qed

lemma validate_list_Some:
  "validate_list str_int docs = Some ds \<longleftrightarrow> map (validate_Document str_int) docs = map Some ds"
proof (induction docs arbitrary: ds)
  case Nil
  show ?case by auto
next
  case (Cons d docs)
  show ?case
  proof (cases "validate_Document str_int d")
    case None
    then show ?thesis by (cases ds) auto
  next
    case (Some doc)
    then show ?thesis using Cons.IH by (cases ds) auto
  qed
qed

section \<open>Evaluating the concrete stores\<close>

lemma load_scenario: "load scenario = Inr loaded"
  by (simp add: load_def build_def scenario_def row_def row_dict_def loaded_def
      doc1_def doc2_def doc3_def append_to_def bucket_def touch_def)

lemma load_review_only: "load [row ''1'' ''a.pdf'' ''NEEDS_REVIEW''] = Inr review_only"
  by (simp add: load_def build_def row_def row_dict_def review_only_def
      doc1_def append_to_def bucket_def touch_def)

lemma load_malformed: "load malformed = Inr malformed_loaded"
  by (simp add: load_def build_def malformed_def short_row_def row_def row_dict_def
      malformed_loaded_def dup_a_def dup_b_def bad_id_def short_doc_def
      append_to_def bucket_def touch_def)

lemma load_no_status: "load no_status = Inl KeyError"
  by (simp add: load_def build_def no_status_def row_dict_def append_to_def bucket_def touch_def)

lemma validate_docs:
  "validate_Document decimal doc1 = Some document1"
  "validate_Document decimal doc2 = Some document2"
  "validate_Document decimal doc3 = Some document3"
  by (simp_all add: validate_Document_def validate_id_def validate_pdf_path_def validate_status_def
      decimal_def digit_def doc1_def doc2_def doc3_def document1_def document2_def document3_def)

lemma validate_malformed:
  "validate_Document decimal dup_a = Some \<lparr>id' = 1, pdf_path = ''a.pdf'', status = Some SUCCEEDED\<rparr>"
  "validate_Document decimal bad_id = None"
  by (simp_all add: validate_Document_def validate_id_def validate_pdf_path_def validate_status_def
      decimal_def digit_def dup_a_def bad_id_def)

lemma loaded_sel:
  "documents loaded = [doc1, doc2, doc3]"
  "documents_by_id loaded = [(PStr ''1'', Some doc1), (PStr ''2'', Some doc2), (PStr ''3'', Some doc3)]"
  "documents_by_status loaded = [(PStr ''NEEDS_REVIEW'', [doc1]), (PStr ''SUCCEEDED'', [doc2, doc3])]"
  "documents_by_pdf_path loaded = [(PStr ''a.pdf'', [doc1, doc2]), (PStr ''b.pdf'', [doc3])]"
  "duplicates loaded = [(PStr ''a.pdf'', [doc1, doc2])]"
  by (simp_all add: loaded_def)

lemma update_loaded: "update_document str_int i document loaded = (Inl KeyError, loaded)"
  by (simp add: update_document_def loaded_sel)

lemma get_documents_loaded:
  "get_documents decimal NEEDS_REVIEW loaded = (Inr (DocumentsResponse [document1]), loaded)"
  "get_documents decimal SUCCEEDED loaded = (Inr (DocumentsResponse [document2, document3]), loaded)"
  by (simp_all add: get_documents_def loaded_sel bucket_def touch_def validate_docs)

lemma get_duplicate_documents_loaded:
  "get_duplicate_documents decimal loaded =
     (Inr (GroupedDocumentsResponse [(''a.pdf'', [document1, document2])]), loaded)"
  by (simp add: get_duplicate_documents_def loaded_sel validate_docs)

text \<open>
  Reading a status that no document has stores an empty list under it: the dictionary
  changes, the lists that it answers with do not.
\<close>

lemma get_documents_stores_empty_bucket:
  "get_documents decimal SUCCEEDED review_only =
     (Inr (DocumentsResponse []),
      review_only\<lparr>documents_by_status := [(PStr ''NEEDS_REVIEW'', [doc1]), (PStr ''SUCCEEDED'', [])]\<rparr>)"
  by (simp add: get_documents_def review_only_def bucket_def touch_def)

subsection \<open>The statements of \<^verbatim>\<open>update_document\<close> after the lookup\<close>

text \<open>
  On a store with integer keys the lookup succeeds. The handler then builds a new dict from
  the validated document (its id is an integer now), takes the old dict out of its status
  list, appends the new one to the list of its status and rebinds the integer key.
  \<^verbatim>\<open>documents_by_pdf_path\<close> and \<^verbatim>\<open>duplicates\<close> keep the old dict. A request without a
  status does the same, so the document moves to the end of its list. An id that is not a
  key still raises \<^verbatim>\<open>KeyError\<close>.
\<close>

lemma Document_kwargs_docs:
  "Document_kwargs decimal doc1 = Inr document1"
  "Document_kwargs decimal doc2 = Inr document2"
  by (simp_all add: Document_kwargs_def validate_docs) (simp_all add: doc1_def doc2_def)

lemma int_keys_move:
  "update_document decimal 1 (StatusField (Some SUCCEEDED)) loaded_int =
     (Inr (DocumentResponse (document1\<lparr>status := Some SUCCEEDED\<rparr>)),
      loaded_int\<lparr>documents_by_status :=
                   [(PStr ''NEEDS_REVIEW'', []), (PStr ''SUCCEEDED'', [doc2, doc3, new1])],
                 documents_by_id :=
                   [(PInt 1, Some new1), (PInt 2, Some doc2), (PInt 3, Some doc3)]\<rparr>)"
  by (simp add: update_document_def loaded_int_def loaded_sel Document_kwargs_docs Let_def)
    (simp add: doc1_def doc2_def doc3_def new1_def document1_def model_dump_def dict_eq_def
      bucket_def touch_def append_to_def loaded_def Let_def)

lemma int_keys_no_change:
  "update_document decimal 2 NoFields loaded_int =
     (Inr (DocumentResponse document2),
      loaded_int\<lparr>documents_by_status :=
                   [(PStr ''NEEDS_REVIEW'', [doc1]), (PStr ''SUCCEEDED'', [doc3, new2])],
                 documents_by_id :=
                   [(PInt 1, Some doc1), (PInt 2, Some new2), (PInt 3, Some doc3)]\<rparr>)"
  by (simp add: update_document_def loaded_int_def loaded_sel Document_kwargs_docs Let_def)
    (simp add: doc1_def doc2_def doc3_def new2_def document2_def model_dump_def dict_eq_def
      bucket_def touch_def append_to_def loaded_def Let_def)

lemma int_keys_unknown:
  "update_document decimal 99 NoFields loaded_int = (Inl KeyError, loaded_int)"
  by (simp add: update_document_def loaded_int_def)

section \<open>The update handler on the loaded store\<close>

text \<open>
  Claim C5. \<^verbatim>\<open>csv.DictReader\<close> yields strings, so the keys of \<^verbatim>\<open>documents_by_id\<close> are
  strings (or \<^verbatim>\<open>None\<close>), and the handler subscripts the dictionary with the integer of the
  path. For every file that loads, after any sequence of requests, for every id and every
  body: the integer is not a key, the subscript raises \<^verbatim>\<open>KeyError\<close>, the store is left as
  it was, and the test \<^verbatim>\<open>old_record is None\<close> with its 404 is never reached.
\<close>

theorem update_document_raises_KeyError:
  assumes "load rows = Inr s0" and "snd (serve str_int reqs s0) = s"
  shows "map_of (documents_by_id s) (PInt i) = None \<and>
         update_document str_int i document s = (Inl KeyError, s) \<and>
         fst (update_document str_int i document s) \<noteq> Inl (HTTPException 404)"
proof -
  have "no_int_key (documents_by_id s0)" using assms(1) by (rule load_no_int_key)
  then have "documents_by_id s = documents_by_id s0" "no_int_key (documents_by_id s0)"
    using assms(2) serve_by_id by auto
  then have "map_of (documents_by_id s) (PInt i) = None" by (simp add: no_int_key_lookup)
  then show ?thesis by (simp add: update_document_KeyError)
qed

text \<open>
  The scenario's file, after a read and an earlier PATCH: the PATCH of document 1, whose
  row is in the file, raises \<^verbatim>\<open>KeyError\<close>.
\<close>

theorem update_document_raises_KeyError_witness:
  "load scenario = Inr loaded \<and>
   snd (serve decimal [GetDocuments SUCCEEDED, UpdateDocument 2 NoFields] loaded) = loaded \<and>
   map_of (documents_by_id loaded) (PInt 1) = None \<and>
   update_document decimal 1 (StatusField (Some SUCCEEDED)) loaded = (Inl KeyError, loaded) \<and>
   fst (update_document decimal 1 (StatusField (Some SUCCEEDED)) loaded) \<noteq> Inl (HTTPException 404)"
proof -
  have h1: "load scenario = Inr loaded" by (rule load_scenario)
  have h2: "snd (serve decimal [GetDocuments SUCCEEDED, UpdateDocument 2 NoFields] loaded) = loaded"
    by (simp add: get_documents_loaded update_loaded)
  from update_document_raises_KeyError[OF h1 h2, of 1 "StatusField (Some SUCCEEDED)"] h1 h2
  show ?thesis by blast
qed

text \<open>
  Claim C1 (an unknown id gives NotFound, 404). The handler means to answer 404 (its test
  \<^verbatim>\<open>old_record is None\<close>), but the subscript before it raises: on the scenario's store, where
  no document has id 99, the PATCH of 99 ends in an uncaught \<^verbatim>\<open>KeyError\<close>. The store is
  unchanged, as the claim says.
\<close>

theorem unknown_id_raises_KeyError:
  "load scenario = Inr loaded \<and>
   find (\<lambda>doc. validate_id decimal doc = Some 99) (documents loaded) = None \<and>
   update_document decimal 99 (StatusField (Some SUCCEEDED)) loaded = (Inl KeyError, loaded)"
  by (simp add: load_scenario update_loaded loaded_sel)
    (simp add: validate_id_def decimal_def digit_def doc1_def doc2_def doc3_def)

text \<open>
  Claim C2 (a status update moves the document to the new list). Document 1 of the scenario
  has status NEEDS\_REVIEW. Its PATCH to SUCCEEDED raises \<^verbatim>\<open>KeyError\<close> at the lookup: the
  document stays in the list of NEEDS\_REVIEW, does not enter the list of SUCCEEDED, and
  the entry of \<^verbatim>\<open>documents_by_id\<close> keeps its status.
\<close>

theorem status_update_moves_nothing:
  "load scenario = Inr loaded \<and>
   validate_Document decimal doc1 = Some document1 \<and>
   update_document decimal 1 (StatusField (Some SUCCEEDED)) loaded = (Inl KeyError, loaded) \<and>
   bucket (documents_by_status loaded) (PStr ''NEEDS_REVIEW'') = [doc1] \<and>
   bucket (documents_by_status loaded) (PStr ''SUCCEEDED'') = [doc2, doc3] \<and>
   map_of (documents_by_id loaded) (PStr ''1'') = Some (Some doc1) \<and>
   map_of doc1 (PStr ''status'') = Some (PStr ''NEEDS_REVIEW'')"
  by (simp add: load_scenario update_loaded validate_docs loaded_sel bucket_def)
    (simp add: doc1_def)

text \<open>
  Claim C3 (one representation, the update visible through every index). After the PATCH of
  document 1 to SUCCEEDED, which raises \<^verbatim>\<open>KeyError\<close>, the reads through the status index
  and through the duplicates view answer with document 1 under its old status, and
  \<^verbatim>\<open>documents_by_id\<close> and \<^verbatim>\<open>documents_by_pdf_path\<close> hold the old dict.
\<close>

theorem status_update_visible_nowhere:
  "serve decimal
     [UpdateDocument 1 (StatusField (Some SUCCEEDED)),
      GetDocuments SUCCEEDED, GetDocuments NEEDS_REVIEW, GetDuplicateDocuments] loaded =
     ([Inl KeyError,
       Inr (DocumentsResponse [document2, document3]),
       Inr (DocumentsResponse [document1]),
       Inr (GroupedDocumentsResponse [(''a.pdf'', [document1, document2])])], loaded) \<and>
   status document1 = Some NEEDS_REVIEW \<and>
   map_of (documents_by_id loaded) (PStr ''1'') = Some (Some doc1) \<and>
   bucket (documents_by_pdf_path loaded) (PStr ''a.pdf'') = [doc1, doc2]"
  by (simp add: update_loaded get_documents_loaded get_duplicate_documents_loaded
      loaded_sel bucket_def document1_def)

text \<open>
  Claim C4 (no status, or the current status: the current document comes back). For
  document 1 of the scenario both requests raise \<^verbatim>\<open>KeyError\<close> and return no document. The
  status lists are unchanged.
\<close>

theorem no_change_update_raises_KeyError:
  "load scenario = Inr loaded \<and>
   validate_Document decimal doc1 = Some document1 \<and>
   update_document decimal 1 NoFields loaded = (Inl KeyError, loaded) \<and>
   update_document decimal 1 (StatusField (Some NEEDS_REVIEW)) loaded = (Inl KeyError, loaded)"
  by (simp add: load_scenario update_loaded validate_docs)

text \<open>
  Claim C7 (a moved document goes to the end of its new list; the scenario). After the
  PATCH of document 1 to SUCCEEDED the list of NEEDS\_REVIEW still holds document 1, it is
  not empty, and the list of SUCCEEDED is document 2, document 3, without document 1.
\<close>

theorem moved_document_not_appended:
  "load scenario = Inr loaded \<and>
   serve decimal
     [UpdateDocument 1 (StatusField (Some SUCCEEDED)),
      GetDocuments NEEDS_REVIEW, GetDocuments SUCCEEDED] loaded =
     ([Inl KeyError,
       Inr (DocumentsResponse [document1]),
       Inr (DocumentsResponse [document2, document3])], loaded)"
  by (simp add: load_scenario update_loaded get_documents_loaded)

section \<open>Loading\<close>

text \<open>
  Claim C6 (the load fails on malformed rows, on an id that is not an integer and on a
  duplicate id). The module validates nothing when it loads. The file \<open>malformed\<close> loads:
  of the two rows with id 1 the second one is the entry of \<^verbatim>\<open>documents_by_id\<close>, the first
  one is overwritten there and both stay in the other indexes; the id \<^verbatim>\<open>abc\<close> is a key; the
  short row is stored with \<^verbatim>\<open>None\<close> for its path and status.
\<close>

theorem load_accepts_malformed_rows:
  "load malformed = Inr malformed_loaded \<and>
   map_of (documents_by_id malformed_loaded) (PStr ''1'') = Some (Some dup_b) \<and>
   bucket (documents_by_status malformed_loaded) (PStr ''SUCCEEDED'') = [dup_a, bad_id] \<and>
   map_of (documents_by_id malformed_loaded) (PStr ''abc'') = Some (Some bad_id) \<and>
   decimal ''abc'' = None \<and>
   map_of (documents_by_id malformed_loaded) (PStr ''4'') = Some (Some short_doc) \<and>
   map_of short_doc (PStr ''status'') = Some PNone"
  by (simp add: load_malformed) (simp add: malformed_loaded_def bucket_def decimal_def digit_def short_doc_def)

text \<open>
  Claim C6, amended. The load fails, with \<^verbatim>\<open>KeyError\<close>, exactly when a row lacks one of the
  columns id, status and pdf\_path, that is when the header lacks it. Otherwise it
  succeeds, whatever the fields hold: the documents are the rows in file order,
  \<^verbatim>\<open>documents_by_id\<close> maps an id to the last row with that id, and the list of a status or of
  a path holds every row with it, in file order.
\<close>

theorem load_validates_nothing:
  "if list_all has_columns rows
   then \<exists>s. load rows = Inr s \<and> documents s = map row_dict rows \<and>
           (\<forall>k. map_of (documents_by_id s) k =
                  map_option Some (find (\<lambda>doc. map_of doc (PStr ''id'') = Some k)
                                        (rev (map row_dict rows)))) \<and>
           (\<forall>k. bucket (documents_by_status s) k =
                  filter (\<lambda>doc. map_of doc (PStr ''status'') = Some k) (map row_dict rows)) \<and>
           (\<forall>k. bucket (documents_by_pdf_path s) k =
                  filter (\<lambda>doc. map_of doc (PStr ''pdf_path'') = Some k) (map row_dict rows))
   else load rows = Inl KeyError"
proof (cases "list_all has_columns rows")
  case True
  from load_columns_present[OF True] show ?thesis by (simp only: True if_True)
next
  case False
  from load_column_missing[OF False] show ?thesis by (simp only: False if_False)
qed

theorem load_validates_nothing_witness:
  "list_all has_columns malformed \<and> load malformed \<noteq> Inl KeyError \<and>
   \<not> list_all has_columns no_status \<and> load no_status = Inl KeyError"
proof -
  have h1: "list_all has_columns malformed"
    by (simp add: has_columns_def malformed_def row_def short_row_def)
  have h2: "\<not> list_all has_columns no_status"
    by (simp add: has_columns_def no_status_def)
  from load_validates_nothing[of malformed] h1 have "\<exists>s. load malformed = Inr s"
    by (simp only: if_True) blast
  moreover from load_validates_nothing[of no_status] h2 have "load no_status = Inl KeyError"
    by (simp only: if_False)
  ultimately show ?thesis using h1 h2 by auto
qed

section \<open>The duplicates view\<close>

text \<open>
  Claim C8. For every file that loads, after any sequence of requests and for every path
  \<open>p\<close>: \<open>p\<close> is a key of \<^verbatim>\<open>duplicates\<close> if and only if the list of \<open>p\<close> in
  \<^verbatim>\<open>documents_by_pdf_path\<close> has more than one document, and \<^verbatim>\<open>duplicates\<close> maps \<open>p\<close> to
  that list.
\<close>

theorem duplicates_iff_by_path:
  assumes "load rows = Inr s0" and "snd (serve str_int reqs s0) = s"
  shows "(p \<in> fst ` set (duplicates s)) = (length (bucket (documents_by_pdf_path s) p) > 1) \<and>
         map_of (duplicates s) p =
           (if length (bucket (documents_by_pdf_path s) p) > 1
            then Some (bucket (documents_by_pdf_path s) p) else None)"
proof -
  from serve_frame[of str_int reqs s0] assms(2)
  have eq: "documents_by_pdf_path s = documents_by_pdf_path s0" "duplicates s = duplicates s0"
    by auto
  from load_duplicates[OF assms(1)] eq
  have dist: "distinct (map fst (documents_by_pdf_path s))"
    and dup: "duplicates s = filter (\<lambda>(path, docs). length docs > 1) (documents_by_pdf_path s)"
    by simp_all
  have m: "map_of (duplicates s) p =
           (if length (bucket (documents_by_pdf_path s) p) > 1
            then Some (bucket (documents_by_pdf_path s) p) else None)"
    using map_of_filter_snd[OF dist, of "\<lambda>docs. length docs > 1" p] unfolding dup
    by (simp add: bucket_def split: option.splits)
  have "(p \<in> fst ` set (duplicates s)) = (map_of (duplicates s) p \<noteq> None)"
    by (simp add: map_of_eq_None_iff)
  with m show ?thesis by simp
qed

theorem duplicates_iff_by_path_witness:
  "load scenario = Inr loaded \<and>
   snd (serve decimal [GetDocuments NEEDS_REVIEW, GetDuplicateDocuments] loaded) = loaded \<and>
   (PStr ''a.pdf'' \<in> fst ` set (duplicates loaded)) \<and>
   length (bucket (documents_by_pdf_path loaded) (PStr ''a.pdf'')) > 1 \<and>
   map_of (duplicates loaded) (PStr ''a.pdf'') = Some [doc1, doc2] \<and>
   (PStr ''b.pdf'' \<notin> fst ` set (duplicates loaded)) \<and>
   length (bucket (documents_by_pdf_path loaded) (PStr ''b.pdf'')) = 1"
proof -
  have h1: "load scenario = Inr loaded" by (rule load_scenario)
  have h2: "snd (serve decimal [GetDocuments NEEDS_REVIEW, GetDuplicateDocuments] loaded) = loaded"
    by (simp add: get_documents_loaded get_duplicate_documents_loaded)
  have a: "bucket (documents_by_pdf_path loaded) (PStr ''a.pdf'') = [doc1, doc2]"
    and b: "bucket (documents_by_pdf_path loaded) (PStr ''b.pdf'') = [doc3]"
    by (simp_all add: loaded_sel bucket_def)
  from duplicates_iff_by_path[OF h1 h2, of "PStr ''a.pdf''"]
       duplicates_iff_by_path[OF h1 h2, of "PStr ''b.pdf''"] h1 h2
  show ?thesis unfolding a b by simp
qed

section \<open>The queries\<close>

text \<open>
  Claim C9 (a read returns the list of the status; a status without documents gives the
  empty list). Building the response validates every dict of the list, and the load has
  validated none: in the store of \<open>malformed\<close> the list of SUCCEEDED holds the row with the
  id \<^verbatim>\<open>abc\<close>, and the read of SUCCEEDED raises \<^verbatim>\<open>ValidationError\<close>.
\<close>

theorem get_documents_fails_on_unvalidated_record:
  "load malformed = Inr malformed_loaded \<and>
   bucket (documents_by_status malformed_loaded) (PStr (status_str SUCCEEDED)) = [dup_a, bad_id] \<and>
   fst (get_documents decimal SUCCEEDED malformed_loaded) = Inl ValidationError"
  by (simp add: load_malformed)
    (simp add: get_documents_def malformed_loaded_def bucket_def touch_def validate_malformed)

text \<open>
  Claim C9, amended. For every store and every valid status: when every dict of the
  status's list validates as a \<^verbatim>\<open>Document\<close>, the read returns these documents, in the order
  of the list; when one does not, it raises \<^verbatim>\<open>ValidationError\<close>; and a status that is not a
  key of \<^verbatim>\<open>documents_by_status\<close> gives the empty list, not an error.
\<close>

theorem get_documents_returns_bucket:
  "(map (validate_Document str_int) (bucket (documents_by_status s) (PStr (status_str st)))
      = map Some ds \<longrightarrow>
    fst (get_documents str_int st s) = Inr (DocumentsResponse ds)) \<and>
   (None \<in> set (map (validate_Document str_int)
                  (bucket (documents_by_status s) (PStr (status_str st)))) \<longrightarrow>
    fst (get_documents str_int st s) = Inl ValidationError) \<and>
   (map_of (documents_by_status s) (PStr (status_str st)) = None \<longrightarrow>
    fst (get_documents str_int st s) = Inr (DocumentsResponse []))"
proof -
  let ?docs = "bucket (documents_by_status s) (PStr (status_str st))"
  have ok: "fst (get_documents str_int st s) = Inr (DocumentsResponse ds)"
    if "validate_list str_int ?docs = Some ds" for ds
    using that by (simp add: get_documents_def Let_def)
  have bad: "fst (get_documents str_int st s) = Inl ValidationError"
    if "validate_list str_int ?docs = None"
    using that by (simp add: get_documents_def Let_def)
  have "validate_list str_int ?docs = None"
    if "None \<in> set (map (validate_Document str_int) ?docs)"
  proof (cases "validate_list str_int ?docs")
    case None
    then show ?thesis .
  next
    case (Some ds')
    then have "map (validate_Document str_int) ?docs = map Some ds'"
      by (simp add: validate_list_Some)
    with that show ?thesis by auto
  qed
  with ok bad show ?thesis
    by (auto simp: validate_list_Some[symmetric] bucket_def)
qed

theorem get_documents_returns_bucket_witness:
  "map (validate_Document decimal) (bucket (documents_by_status loaded) (PStr (status_str SUCCEEDED)))
     = map Some [document2, document3] \<and>
   fst (get_documents decimal SUCCEEDED loaded) = Inr (DocumentsResponse [document2, document3]) \<and>
   None \<in> set (map (validate_Document decimal)
                 (bucket (documents_by_status malformed_loaded) (PStr (status_str SUCCEEDED)))) \<and>
   fst (get_documents decimal SUCCEEDED malformed_loaded) = Inl ValidationError \<and>
   map_of (documents_by_status review_only) (PStr (status_str SUCCEEDED)) = None \<and>
   fst (get_documents decimal SUCCEEDED review_only) = Inr (DocumentsResponse [])"
proof -
  have h1: "map (validate_Document decimal)
              (bucket (documents_by_status loaded) (PStr (status_str SUCCEEDED)))
            = map Some [document2, document3]"
    by (simp add: loaded_sel bucket_def validate_docs)
  have h2: "None \<in> set (map (validate_Document decimal)
              (bucket (documents_by_status malformed_loaded) (PStr (status_str SUCCEEDED))))"
    by (simp add: malformed_loaded_def bucket_def validate_malformed)
  have h3: "map_of (documents_by_status review_only) (PStr (status_str SUCCEEDED)) = None"
    by (simp add: review_only_def)
  from get_documents_returns_bucket[of decimal loaded SUCCEEDED "[document2, document3]"]
       get_documents_returns_bucket[of decimal malformed_loaded SUCCEEDED "[]"]
       get_documents_returns_bucket[of decimal review_only SUCCEEDED "[]"] h1 h2 h3
  show ?thesis by blast
qed

text \<open>
  Claim C10. For every store, every status and every sequence of later requests: after
  \<^verbatim>\<open>get_documents\<close> or \<^verbatim>\<open>get_duplicate_documents\<close> the later requests get the responses
  they would have got without the read. \<^verbatim>\<open>get_duplicate_documents\<close> leaves the store as it
  is; \<^verbatim>\<open>get_documents\<close> leaves \<^verbatim>\<open>documents_by_id\<close>, \<^verbatim>\<open>documents_by_pdf_path\<close>,
  \<^verbatim>\<open>duplicates\<close> and the list of every status as they are (it can add a status with an
  empty list to the keys of \<^verbatim>\<open>documents_by_status\<close>, which no request observes).
\<close>

theorem queries_are_pure_reads:
  "fst (serve str_int reqs (snd (get_documents str_int st s))) = fst (serve str_int reqs s) \<and>
   fst (serve str_int reqs (snd (get_duplicate_documents str_int s))) = fst (serve str_int reqs s) \<and>
   documents_by_id (snd (get_documents str_int st s)) = documents_by_id s \<and>
   (\<forall>k. bucket (documents_by_status (snd (get_documents str_int st s))) k
         = bucket (documents_by_status s) k) \<and>
   documents_by_pdf_path (snd (get_documents str_int st s)) = documents_by_pdf_path s \<and>
   duplicates (snd (get_documents str_int st s)) = duplicates s \<and>
   snd (get_duplicate_documents str_int s) = s"
  using serve_sim[OF get_documents_sim_self[of str_int st s], of str_int reqs]
  by (simp add: get_documents_frame get_duplicate_documents_state)

theorem queries_are_pure_reads_witness:
  "fst (serve decimal [GetDocuments SUCCEEDED, UpdateDocument 1 NoFields, GetDuplicateDocuments]
          (snd (get_documents decimal SUCCEEDED review_only)))
     = fst (serve decimal [GetDocuments SUCCEEDED, UpdateDocument 1 NoFields, GetDuplicateDocuments]
              review_only) \<and>
   documents_by_id (snd (get_documents decimal SUCCEEDED review_only)) = documents_by_id review_only \<and>
   duplicates (snd (get_documents decimal SUCCEEDED review_only)) = duplicates review_only \<and>
   snd (get_duplicate_documents decimal review_only) = review_only"
  using queries_are_pure_reads[of decimal
      "[GetDocuments SUCCEEDED, UpdateDocument 1 NoFields, GetDuplicateDocuments]"
      SUCCEEDED review_only]
  by blast

end
